theory Spec2Isabelle
  imports Complex_Main "HOL-Library.Multiset"
begin

section \<open>Values shared by the modules\<close>

text \<open>
  An embedding is a vector of floating-point numbers (128 components in the face
  recognition library); the model computes over the reals.  Exceptions are values:
  a function that can raise returns \<open>exn + 'a\<close>.  \<open>SyntaxError\<close> is what
  Python reports for a function that it refuses to compile.  The detail string of an
  \<open>HTTPException\<close> is an f-string in the source; the model keeps the template
  (accents dropped) and, separately, the values interpolated into it.
\<close>

type_synonym embedding = "real list"

datatype exn =
    ValueError
  | IndexError
  | OperationalError
  | SyntaxError
  | HTTPException (status_code: nat) (detail: string) (detail_args: "arg list")
and arg = Str string | Num real | Exc exn

record FaceRecognitionResult =
  name :: string
  is_known :: bool
  distance :: "real option"

definition FACE_RECOGNITION_TOLERANCE :: real where
  "FACE_RECOGNITION_TOLERANCE = 6 / 10"

section \<open>The face recognition library and numpy\<close>

text \<open>
  Modelled from the spec: \<open>face_recognition.face_distance\<close> and \<open>np.argmin\<close> are
  library functions outside the repository.  The spec names the distance: the Euclidean
  distance between the query and every gallery embedding, in gallery order.  Vectors of
  different dimension cannot be subtracted, which numpy reports as a \<open>ValueError\<close>
  (broadcasting of one-component vectors is not modelled).  \<open>np.argmin\<close> returns the
  index of the first occurrence of the minimum.
\<close>

definition euclid :: "embedding \<Rightarrow> embedding \<Rightarrow> real" where
  "euclid a b = sqrt (sum_list (map (\<lambda>(x, y). (x - y)\<^sup>2) (zip a b)))"

definition face_distance :: "embedding list \<Rightarrow> embedding \<Rightarrow> exn + real list" where
  "face_distance face_encodings face_to_compare =
     (if face_encodings = [] then Inr []
      else if list_all (\<lambda>e. length e = length face_to_compare) face_encodings
      then Inr (map (\<lambda>e. euclid e face_to_compare) face_encodings)
      else Inl ValueError)"

fun argmin :: "real list \<Rightarrow> nat" where
  "argmin [] = 0"
| "argmin [d] = 0"
| "argmin (d # ds) = (let k = argmin ds in if d \<le> ds ! k then 0 else Suc k)"

text \<open>Python list indexing with a non-negative index.\<close>

definition getitem :: "'a list \<Rightarrow> nat \<Rightarrow> exn + 'a" where
  "getitem xs i = (if i < length xs then Inr (xs ! i) else Inl IndexError)"

section \<open>app/face\_utils.py\<close>

definition recognize_face ::
  "embedding \<Rightarrow> embedding list \<Rightarrow> string list \<Rightarrow> real \<Rightarrow> exn + FaceRecognitionResult" where
  "recognize_face test_embedding known_encodings known_names tolerance =
     (if known_encodings = []
      then Inr \<lparr>name = ''No hay rostros de referencia cargados en memoria.'',
                is_known = False, distance = None\<rparr>
      else case face_distance known_encodings test_embedding of
        Inl e \<Rightarrow> Inl e
      | Inr face_distances \<Rightarrow>
          let best_match_index = argmin face_distances;
              best_match_distance = face_distances ! best_match_index
          in if best_match_distance \<le> tolerance
             then (case getitem known_names best_match_index of
                     Inl e \<Rightarrow> Inl e
                   | Inr n \<Rightarrow> Inr \<lparr>name = n, is_known = True,
                                     distance = Some best_match_distance\<rparr>)
             else Inr \<lparr>name = ''Desconocido'', is_known = False,
                       distance = Some best_match_distance\<rparr>)"

definition is_face_duplicate ::
  "embedding \<Rightarrow> embedding list \<Rightarrow> string list \<Rightarrow> real
     \<Rightarrow> exn + (bool \<times> string option \<times> real option)" where
  "is_face_duplicate new_embedding known_encodings known_names tolerance =
     (if known_encodings = [] then Inr (False, None, None)
      else case face_distance known_encodings new_embedding of
        Inl e \<Rightarrow> Inl e
      | Inr face_distances \<Rightarrow>
          let best_match_index = argmin face_distances;
              best_match_distance = face_distances ! best_match_index
          in if best_match_distance \<le> tolerance
             then (case getitem known_names best_match_index of
                     Inl e \<Rightarrow> Inl e
                   | Inr duplicate_name \<Rightarrow>
                       Inr (True, Some duplicate_name, Some best_match_distance))
             else Inr (False, None, None))"

section \<open>app/database.py\<close>

text \<open>
  The table \<open>mis_personas_pg\<close> is a list of rows in the order a \<open>SELECT\<close> returns
  them.  The embedding column holds \<open>NULL\<close>, a list of numbers, or a value that the
  driver does not return as a list.  Whether a connection can be opened is decided
  outside the program: \<open>conn_up\<close> scripts the outcome of the coming connection
  attempts, one entry per attempt, and the store is reachable once the script is used up.
  \<open>calls\<close> records the store operations that were invoked, in order.
\<close>

datatype db_value = Null | ListVal embedding | NonList

record row =
  row_id :: nat
  nombre :: string
  embedding :: db_value

datatype call = SelectAll | SelectId string | Delete nat

record db =
  table :: "row list"
  next_id :: nat
  conn_up :: "bool list"
  calls :: "call list"

definition get_db_connection :: "db \<Rightarrow> bool \<times> db" where
  "get_db_connection d =
     (case conn_up d of [] \<Rightarrow> (True, d) | b # bs \<Rightarrow> (b, d\<lparr>conn_up := bs\<rparr>))"

text \<open>The loop over the fetched rows: a row is appended only if its embedding is a list.\<close>

fun append_rows ::
  "row list \<Rightarrow> embedding list \<times> string list \<Rightarrow> embedding list \<times> string list" where
  "append_rows [] acc = acc"
| "append_rows (r # rs) (encs, names) =
     (case embedding r of
        ListVal v \<Rightarrow> append_rows rs (encs @ [v], names @ [nombre r])
      | _ \<Rightarrow> append_rows rs (encs, names))"

definition load_known_faces_from_db ::
  "db \<Rightarrow> (exn + embedding list \<times> string list) \<times> db" where
  "load_known_faces_from_db d =
     (let (ok, d1) = get_db_connection (d\<lparr>calls := calls d @ [SelectAll]\<rparr>)
      in if \<not> ok then (Inl OperationalError, d1)
         else (Inr (append_rows (filter (\<lambda>r. embedding r \<noteq> Null) (table d1)) ([], [])),
               d1))"

definition delete_face_from_db :: "nat \<Rightarrow> db \<Rightarrow> (exn + bool) \<times> db" where
  "delete_face_from_db person_id d =
     (let (ok, d1) = get_db_connection (d\<lparr>calls := calls d @ [Delete person_id]\<rparr>)
      in if \<not> ok then (Inl OperationalError, d1)
         else (Inr (list_ex (\<lambda>r. row_id r = person_id) (table d1)),
               d1\<lparr>table := filter (\<lambda>r. row_id r \<noteq> person_id) (table d1)\<rparr>))"

section \<open>app/main.py\<close>

text \<open>
  The module keeps the gallery in two parallel module-level lists.  A function that
  assigns them must declare them \<open>global\<close> before its first use of either name.
  \<open>delete_face_by_name\<close> and \<open>refresh_db_faces_endpoint\<close> do: their only
  \<open>global\<close> statement opens the \<open>try\<close> block that assigns the lists, and nothing
  in the function reads them before.  \<open>register_face\<close> and \<open>startup_event\<close> do
  not, see below.  What the collaborators (file reading, image decoding, face detection
  and embedding extraction) make of the bytes of one image is an input of the model.
\<close>

record app =
  known_face_encodings :: "embedding list"
  known_face_names :: "string list"

datatype image = Unreadable | Undecodable | NoFace | Face embedding

datatype response = Registered nat string | Deleted string | Reloaded nat

definition publish :: "embedding list \<times> string list \<Rightarrow> app" where
  "publish c = \<lparr>known_face_encodings = fst c, known_face_names = snd c\<rparr>"

text \<open>
  \<open>register_face\<close> passes the two lists to \<open>is_face_duplicate\<close> (source lines
  216 to 219) and declares them \<open>global\<close> only afterwards (line 237), before the
  reload.  Python refuses such a function when it compiles it (\<open>SyntaxError\<close>: name
  used prior to global declaration), so no part of its body ever runs: no duplicate check,
  no store operation, no assignment to the cache.  Every use of the function meets that
  error, and the cache and the store are as they were.
\<close>

definition register_face ::
  "string \<Rightarrow> image \<Rightarrow> app \<Rightarrow> db \<Rightarrow> (exn + response) \<times> app \<times> db" where
  "register_face n file a d = (Inl SyntaxError, a, d)"

text \<open>
  The recognition endpoint after the embedding has been extracted: its own emptiness test,
  then the utility with the default tolerance; an exception of the utility becomes a 500.
\<close>

definition recognize_endpoint :: "embedding \<Rightarrow> app \<Rightarrow> exn + FaceRecognitionResult" where
  "recognize_endpoint test_face_encoding a =
     (if known_face_encodings a = []
      then Inr \<lparr>name = ''No hay rostros de referencia cargados en memoria.'',
                is_known = False, distance = None\<rparr>
      else case recognize_face test_face_encoding (known_face_encodings a)
                  (known_face_names a) FACE_RECOGNITION_TOLERANCE of
        Inl e \<Rightarrow>
          Inl (HTTPException 500 ''Error durante la comparacion de rostros: {e}'' [Exc e])
      | Inr r \<Rightarrow> Inr r)"

definition delete_face_by_name ::
  "string \<Rightarrow> app \<Rightarrow> db \<Rightarrow> (exn + response) \<times> app \<times> db" where
  "delete_face_by_name n a d =
     (let (ok, d1) = get_db_connection (d\<lparr>calls := calls d @ [SelectId n]\<rparr>)
      in if \<not> ok
         then (Inl (HTTPException 500 ''Error interno al eliminar: {e}'' [Exc OperationalError]),
               a, d1)
         else case find (\<lambda>r. nombre r = n) (table d1) of
           None \<Rightarrow>
             (Inl (HTTPException 404 ''Persona con nombre {nombre} no encontrada.'' [Str n]),
              a, d1)
         | Some r \<Rightarrow>
             (case delete_face_from_db (row_id r) d1 of
                (Inl e, d2) \<Rightarrow>
                  (Inl (HTTPException 500 ''Error interno al eliminar: {e}'' [Exc e]), a, d2)
              | (Inr success, d2) \<Rightarrow>
                  if success
                  then (case load_known_faces_from_db d2 of
                          (Inl e, d3) \<Rightarrow> (Inr (Deleted n), a, d3)
                        | (Inr c, d3) \<Rightarrow> (Inr (Deleted n), publish c, d3))
                  else (Inl (HTTPException 500 ''Error interno al eliminar a la persona.'' []),
                        a, d2)))"

definition refresh_db_faces_endpoint :: "app \<Rightarrow> db \<Rightarrow> (exn + response) \<times> app \<times> db" where
  "refresh_db_faces_endpoint a d =
     (case load_known_faces_from_db d of
        (Inl e, d1) \<Rightarrow>
          (Inl (HTTPException 500 ''Error interno al recargar rostros: {e}'' [Exc e]), a, d1)
      | (Inr c, d1) \<Rightarrow> (Inr (Reloaded (length (snd c))), publish c, d1))"

text \<open>
  A file of the reference folder has a stem (the name to register), a suffix that is or is
  not one of the image suffixes, and the outcome of the collaborators on its bytes.
  \<open>startup_event\<close> declares the two lists \<open>global\<close> at line 75, assigns and reads
  them in the first load and in the loop over the folder (lines 76 to 140), and declares
  them \<open>global\<close> a second time at line 161, in the branch that reloads the cache after
  the loop.  Python refuses the function when it compiles it (\<open>SyntaxError\<close>: name
  assigned to before global declaration), so neither the first load, nor the loop, nor
  the reload ever runs.
\<close>

record photo =
  stem :: string
  image_suffix :: bool
  content :: image

definition startup_event ::
  "photo list \<Rightarrow> app \<Rightarrow> db \<Rightarrow> (exn + nat \<times> nat) \<times> app \<times> db" where
  "startup_event photos a d = (Inl SyntaxError, a, d)"

section \<open>api.py\<close>





section \<open>main.py\<close>



section \<open>Auxiliary notions for the statements\<close>

text \<open>The index that \<open>recognize_face\<close> and \<open>is_face_duplicate\<close> select.\<close>

definition nearest :: "embedding \<Rightarrow> embedding list \<Rightarrow> nat" where
  "nearest q encs = argmin (map (\<lambda>e. euclid e q) encs)"

text \<open>The next connection attempt succeeds.\<close>

definition reachable :: "db \<Rightarrow> bool" where
  "reachable d = (case conn_up d of [] \<Rightarrow> True | b # bs \<Rightarrow> b)"

text \<open>The store after one invoked operation has used one connection attempt.\<close>

definition after_call :: "call \<Rightarrow> db \<Rightarrow> db" where
  "after_call c d = d\<lparr>calls := calls d @ [c], conn_up := tl (conn_up d)\<rparr>"

text \<open>The (name, embedding) pairs of the rows whose embedding is a list, in row order.\<close>

definition gallery_of :: "row list \<Rightarrow> (string \<times> embedding) list" where
  "gallery_of rs =
     concat (map (\<lambda>r. case embedding r of ListVal v \<Rightarrow> [(nombre r, v)] | _ \<Rightarrow> []) rs)"

definition lists_of :: "row list \<Rightarrow> embedding list \<times> string list" where
  "lists_of rs = (map snd (gallery_of rs), map fst (gallery_of rs))"

text \<open>The number of gallery loads among the invoked store operations.\<close>

definition reloads :: "call list \<Rightarrow> nat" where
  "reloads cs = length (filter (\<lambda>c. c = SelectAll) cs)"

text \<open>The two cached lists have the same length.\<close>

definition paired :: "app \<Rightarrow> bool" where
  "paired a = (length (known_face_encodings a) = length (known_face_names a))"

text \<open>
  The cache is paired, and each of its entries is the name and the list-valued embedding
  of one of the given rows.
\<close>

definition admitted :: "row list \<Rightarrow> app \<Rightarrow> bool" where
  "admitted rs a =
     (paired a \<and>
      (\<forall>i < length (known_face_names a).
         \<exists>r \<in> set rs. nombre r = known_face_names a ! i
                      \<and> embedding r = ListVal (known_face_encodings a ! i)))"

section \<open>The nearest entry\<close>

lemma argmin_less: "ds \<noteq> [] \<Longrightarrow> argmin ds < length ds"
  by (induction ds rule: argmin.induct) (auto simp: Let_def)

lemma argmin_le: "j < length ds \<Longrightarrow> ds ! argmin ds \<le> ds ! j"
proof (induction ds arbitrary: j rule: argmin.induct)
  case 1
  then show ?case by simp
next
  case (2 d)
  then show ?case by simp
next
  case (3 d e es)
  let ?k = "argmin (e # es)"
  show ?case
  proof (cases j)
    case 0
    then show ?thesis by (auto simp: Let_def)
  next
    case (Suc j')
    with 3 have "j' < length (e # es)" by simp
    then have "(e # es) ! ?k \<le> (e # es) ! j'" by (rule 3(1))
    with Suc show ?thesis by (auto simp: Let_def)
  qed
qed

lemma argmin_first: "j < argmin ds \<Longrightarrow> ds ! argmin ds < ds ! j"
proof (induction ds arbitrary: j rule: argmin.induct)
  case 1
  then show ?case by simp
next
  case (2 d)
  then show ?case by simp
next
  case (3 d e es)
  let ?k = "argmin (e # es)"
  from 3(2) have nz: "\<not> d \<le> (e # es) ! ?k" and k: "argmin (d # e # es) = Suc ?k"
    by (auto simp: Let_def split: if_splits)
  show ?case
  proof (cases j)
    case 0
    with nz k show ?thesis by simp
  next
    case (Suc j')
    with 3(2) k have "j' < ?k" by simp
    then have "(e # es) ! ?k < (e # es) ! j'" by (rule 3(1))
    with Suc k show ?thesis by simp
  qed
qed

lemma euclid_single: "euclid [a] [b] = \<bar>a - b\<bar>"
  by (simp add: euclid_def)

lemma euclid_nonneg: "0 \<le> euclid a b"
  unfolding euclid_def by (rule real_sqrt_ge_zero, rule sum_list_nonneg) auto

lemma euclid_self: "euclid e e = 0"
proof -
  have "sum_list (map (\<lambda>(x, y). (x - y)\<^sup>2) (zip e e)) = (0::real)"
    by (induction e) auto
  then show ?thesis by (simp add: euclid_def)
qed

lemma face_distance_dims:
  "list_all (\<lambda>e. length e = length q) encs \<Longrightarrow>
   face_distance encs q = Inr (map (\<lambda>e. euclid e q) encs)"
  by (simp add: face_distance_def)

lemma nearest_less: "encs \<noteq> [] \<Longrightarrow> nearest q encs < length encs"
  using argmin_less [of "map (\<lambda>e. euclid e q) encs"] by (simp add: nearest_def)

lemma nearest_le:
  assumes "j < length encs"
  shows "euclid (encs ! nearest q encs) q \<le> euclid (encs ! j) q"
proof -
  from assms have ne: "encs \<noteq> []" by auto
  have "map (\<lambda>e. euclid e q) encs ! nearest q encs \<le> map (\<lambda>e. euclid e q) encs ! j"
    unfolding nearest_def using assms by (intro argmin_le) simp
  with assms nearest_less [OF ne, of q] show ?thesis by simp
qed

lemma nearest_first:
  assumes "j < nearest q encs"
  shows "euclid (encs ! nearest q encs) q < euclid (encs ! j) q"
proof -
  have ne: "encs \<noteq> []" using assms by (auto simp: nearest_def)
  have "map (\<lambda>e. euclid e q) encs ! nearest q encs < map (\<lambda>e. euclid e q) encs ! j"
    using assms unfolding nearest_def by (rule argmin_first)
  with assms nearest_less [OF ne, of q] show ?thesis by simp
qed

lemma recognize_face_nearest:
  assumes "list_all (\<lambda>e. length e = length q) encs" and "length names = length encs"
    and "encs \<noteq> []"
  shows "recognize_face q encs names tol =
    Inr (if euclid (encs ! nearest q encs) q \<le> tol
         then \<lparr>name = names ! nearest q encs, is_known = True,
               distance = Some (euclid (encs ! nearest q encs) q)\<rparr>
         else \<lparr>name = ''Desconocido'', is_known = False,
               distance = Some (euclid (encs ! nearest q encs) q)\<rparr>)"
  using assms nearest_less [OF assms(3), of q]
  by (simp add: recognize_face_def face_distance_dims getitem_def Let_def nearest_def)

lemma sum_sq_zero:
  "length a = length b \<Longrightarrow>
   sum_list (map (\<lambda>(x, y). (x - y)\<^sup>2) (zip a b)) = (0::real) \<Longrightarrow> a = b"
proof (induction a b rule: list_induct2)
  case Nil
  then show ?case by simp
next
  case (Cons x xs y ys)
  have nn: "0 \<le> sum_list (map (\<lambda>(x, y). (x - y)\<^sup>2) (zip xs ys))"
    by (rule sum_list_nonneg) auto
  from Cons.prems have s: "(x - y)\<^sup>2 + sum_list (map (\<lambda>(x, y). (x - y)\<^sup>2) (zip xs ys)) = 0"
    by simp
  have sq: "0 \<le> (x - y)\<^sup>2" by simp
  from s nn sq have "(x - y)\<^sup>2 = 0" and "sum_list (map (\<lambda>(x, y). (x - y)\<^sup>2) (zip xs ys)) = 0"
    by linarith+
  with Cons.IH show ?case by simp
qed

lemma euclid_zero_eq: "length a = length b \<Longrightarrow> euclid a b = 0 \<Longrightarrow> a = b"
  by (rule sum_sq_zero) (simp_all add: euclid_def)

lemma nearest_Min:
  assumes "encs \<noteq> []"
  shows "euclid (encs ! nearest q encs) q = Min ((\<lambda>e. euclid e q) ` set encs)"
proof (rule sym, rule Min_eqI)
  show "finite ((\<lambda>e. euclid e q) ` set encs)" by simp
  show "euclid (encs ! nearest q encs) q \<in> (\<lambda>e. euclid e q) ` set encs"
    using nearest_less [OF assms, of q] by simp
  fix y assume "y \<in> (\<lambda>e. euclid e q) ` set encs"
  then obtain j where "j < length encs" and "y = euclid (encs ! j) q"
    by (auto simp: in_set_conv_nth)
  then show "euclid (encs ! nearest q encs) q \<le> y" using nearest_le by simp
qed

text \<open>
  Claim C4.  When several gallery entries are at the minimum distance from the query,
  \<open>recognize_face\<close> selects the earliest of them in gallery order: for every entry
  \<open>i\<close> at the minimum distance, the selected entry \<open>k\<close> is at or before \<open>i\<close>,
  is at the same distance, and every entry before \<open>k\<close> is strictly farther.  Its name
  is the one returned when the distance is within the tolerance.
\<close>

theorem tie_break_earliest:
  assumes "list_all (\<lambda>e. length e = length q) encs" and "length names = length encs"
    and "i < length encs"
    and "\<forall>j < length encs. euclid (encs ! i) q \<le> euclid (encs ! j) q"
  shows "\<exists>k \<le> i. euclid (encs ! k) q = euclid (encs ! i) q
           \<and> (\<forall>j < k. euclid (encs ! i) q < euclid (encs ! j) q)
           \<and> recognize_face q encs names tol =
               Inr (if euclid (encs ! i) q \<le> tol
                    then \<lparr>name = names ! k, is_known = True,
                          distance = Some (euclid (encs ! i) q)\<rparr>
                    else \<lparr>name = ''Desconocido'', is_known = False,
                          distance = Some (euclid (encs ! i) q)\<rparr>)"
proof -
  let ?k = "nearest q encs"
  from assms(3) have ne: "encs \<noteq> []" by auto
  have klt: "?k < length encs" using ne by (rule nearest_less)
  have "euclid (encs ! ?k) q \<le> euclid (encs ! i) q" using assms(3) by (rule nearest_le)
  moreover have "euclid (encs ! i) q \<le> euclid (encs ! ?k) q" using assms(4) klt by blast
  ultimately have eq: "euclid (encs ! ?k) q = euclid (encs ! i) q" by simp
  have "\<not> i < ?k"
  proof
    assume "i < ?k"
    then have "euclid (encs ! ?k) q < euclid (encs ! i) q" by (rule nearest_first)
    with eq show False by simp
  qed
  then have kle: "?k \<le> i" by simp
  have first: "\<forall>j < ?k. euclid (encs ! i) q < euclid (encs ! j) q"
    using nearest_first [of _ q encs] eq by auto
  show ?thesis
    using kle eq first recognize_face_nearest [OF assms(1,2) ne, of tol]
    by (intro exI [of _ ?k]) simp
qed

theorem tie_break_earliest_witness:
  "\<exists>k \<le> 1. euclid ([[1/2], [1/2]] ! k) [0] = euclid ([[1/2], [1/2]] ! 1) [0]
     \<and> (\<forall>j < k. euclid ([[1/2], [1/2]] ! 1) [0] < euclid ([[1/2], [1/2]] ! j) [0])
     \<and> recognize_face [0] [[1/2], [1/2]] [''alice'', ''bob''] (6/10) =
         Inr \<lparr>name = [''alice'', ''bob''] ! k, is_known = True, distance = Some (1/2)\<rparr>"
proof -
  have h1: "list_all (\<lambda>e. length e = length [0::real]) [[1/2], [1/2]]" by simp
  have h2: "length [''alice'', ''bob''] = length [[1/2::real], [1/2]]" by simp
  have h3: "(1::nat) < length [[1/2::real], [1/2]]" by simp
  have h4: "\<forall>j < length [[1/2::real], [1/2]].
      euclid ([[1/2], [1/2]] ! 1) [0] \<le> euclid ([[1/2], [1/2]] ! j) [0]"
    by (simp add: euclid_single less_Suc_eq)
  from tie_break_earliest [OF h1 h2 h3 h4, of "6/10"] show ?thesis
    by (simp add: euclid_single)
qed


section \<open>Classification\<close>

text \<open>
  Claim C3, as stated, gives the result for a query beyond the tolerance the name
  \<open>Unknown\<close>.  The code returns the name \<open>Desconocido\<close>: for the query \<open>[0]\<close>
  against the gallery \<open>[(alice, [1])]\<close> with tolerance 0.6 the minimum distance is 1
  and the result is not the one the claim gives.
\<close>

theorem unknown_label_counterexample:
  "recognize_face [0] [[1]] [''alice''] (6/10)
     \<noteq> Inr \<lparr>name = ''Unknown'', is_known = False, distance = Some 1\<rparr>"
  by (simp add: recognize_face_def face_distance_def euclid_single Let_def)

text \<open>
  Claim C3, amended.  For a gallery whose two lists have the same length and whose
  embeddings have the dimension of the query: on the empty gallery \<open>recognize_face\<close>
  returns the sentinel (not known, no distance); otherwise, with the minimum of the
  Euclidean distances from the query to the gallery embeddings, it returns the name of the
  entry that attains the minimum, known, with that distance, when the minimum is within
  the tolerance, and the name \<open>Desconocido\<close>, not known, with that distance, when it
  is not.
\<close>

theorem recognize_face_classify:
  assumes "list_all (\<lambda>e. length e = length q) encs" and "length names = length encs"
  shows "recognize_face q encs names tol =
      (if encs = []
       then Inr \<lparr>name = ''No hay rostros de referencia cargados en memoria.'',
                 is_known = False, distance = None\<rparr>
       else if Min ((\<lambda>e. euclid e q) ` set encs) \<le> tol
       then Inr \<lparr>name = names ! nearest q encs, is_known = True,
                 distance = Some (Min ((\<lambda>e. euclid e q) ` set encs))\<rparr>
       else Inr \<lparr>name = ''Desconocido'', is_known = False,
                 distance = Some (Min ((\<lambda>e. euclid e q) ` set encs))\<rparr>)
    \<and> (encs \<noteq> [] \<longrightarrow> nearest q encs < length encs
          \<and> euclid (encs ! nearest q encs) q = Min ((\<lambda>e. euclid e q) ` set encs))"
proof (cases "encs = []")
  case True
  then show ?thesis by (simp add: recognize_face_def)
next
  case False
  then show ?thesis
    using recognize_face_nearest [OF assms False, of tol] nearest_Min [OF False, of q]
      nearest_less [OF False, of q]
    by simp
qed

theorem recognize_face_classify_witness:
  "recognize_face [0] [[3/10], [4/5]] [''alice'', ''bob''] (6/10) =
     Inr \<lparr>name = ''alice'', is_known = True, distance = Some (3/10)\<rparr>
   \<and> recognize_face [0] [[7/10], [9/10]] [''alice'', ''bob''] (6/10) =
     Inr \<lparr>name = ''Desconocido'', is_known = False, distance = Some (7/10)\<rparr>"
proof -
  have n1: "nearest [0] [[3/10], [4/5]] = 0" by (simp add: nearest_def euclid_single)
  have h1: "list_all (\<lambda>e. length e = length [0::real]) [[3/10], [4/5]]" by simp
  have h2: "length [''alice'', ''bob''] = length [[3/10::real], [4/5]]" by simp
  have h3: "list_all (\<lambda>e. length e = length [0::real]) [[7/10], [9/10]]" by simp
  have h4: "length [''alice'', ''bob''] = length [[7/10::real], [9/10]]" by simp
  from recognize_face_classify [OF h1 h2, of "6/10"] recognize_face_classify [OF h3 h4, of "6/10"]
  show ?thesis by (simp add: euclid_single n1)
qed

text \<open>
  Claim C5.  The distance of an embedding to itself is 0; when the gallery holds the
  query at position \<open>i\<close>, recognition with any non-negative tolerance returns the name
  of an entry equal to the query (the earliest one, at or before \<open>i\<close>), known, with
  distance 0.
\<close>

theorem self_distance_zero:
  assumes "list_all (\<lambda>e. length e = length q) encs" and "length names = length encs"
    and "0 \<le> tol" and "i < length encs" and "encs ! i = q"
  shows "euclid e e = 0
    \<and> (\<exists>k \<le> i. encs ! k = q
          \<and> recognize_face q encs names tol =
              Inr \<lparr>name = names ! k, is_known = True, distance = Some 0\<rparr>)"
proof -
  let ?k = "nearest q encs"
  from assms(4) have ne: "encs \<noteq> []" by auto
  have klt: "?k < length encs" using ne by (rule nearest_less)
  have "euclid (encs ! ?k) q \<le> euclid (encs ! i) q" using assms(4) by (rule nearest_le)
  with assms(5) have "euclid (encs ! ?k) q \<le> 0" by (simp add: euclid_self)
  with euclid_nonneg [of "encs ! ?k" q] have z: "euclid (encs ! ?k) q = 0" by simp
  have "length (encs ! ?k) = length q"
    using assms(1) klt by (simp add: list_all_length)
  then have kq: "encs ! ?k = q" using z by (rule euclid_zero_eq)
  have "\<not> i < ?k"
  proof
    assume "i < ?k"
    then have "euclid (encs ! ?k) q < euclid (encs ! i) q" by (rule nearest_first)
    with z assms(5) show False by (simp add: euclid_self)
  qed
  then have kle: "?k \<le> i" by simp
  have "recognize_face q encs names tol =
      Inr \<lparr>name = names ! ?k, is_known = True, distance = Some 0\<rparr>"
    using recognize_face_nearest [OF assms(1,2) ne, of tol] z assms(3) by simp
  with kle kq show ?thesis by (auto simp: euclid_self)
qed

theorem self_distance_zero_witness:
  "euclid [1, 2] [1, 2] = 0
   \<and> recognize_face [2] [[5], [2]] [''alice'', ''bob''] 0 =
       Inr \<lparr>name = ''bob'', is_known = True, distance = Some 0\<rparr>"
proof -
  have h1: "list_all (\<lambda>e. length e = length [2::real]) [[5], [2]]" by simp
  have h2: "length [''alice'', ''bob''] = length [[5::real], [2]]" by simp
  have h3: "(0::real) \<le> 0" by simp
  have h4: "(1::nat) < length [[5::real], [2]]" by simp
  have h5: "[[5::real], [2]] ! 1 = [2]" by simp
  have n: "recognize_face [2] [[5], [2]] [''alice'', ''bob''] 0 =
       Inr \<lparr>name = ''bob'', is_known = True, distance = Some 0\<rparr>"
    by (simp add: recognize_face_def face_distance_def euclid_single Let_def getitem_def)
  from self_distance_zero [OF h1 h2 h3 h4 h5, of "[1, 2]"] n show ?thesis by simp
qed


section \<open>The store and the loaders\<close>

lemma get_db_connection_eq:
  "get_db_connection d = (reachable d, d\<lparr>conn_up := tl (conn_up d)\<rparr>)"
  by (cases "conn_up d") (simp_all add: get_db_connection_def reachable_def)

lemma gallery_of_simps:
  "gallery_of [] = []"
  "gallery_of (r # rs) =
     (case embedding r of ListVal v \<Rightarrow> [(nombre r, v)] | _ \<Rightarrow> []) @ gallery_of rs"
  by (simp_all add: gallery_of_def)

lemma append_rows_eq:
  "append_rows rs (encs, names) =
     (encs @ map snd (gallery_of rs), names @ map fst (gallery_of rs))"
  by (induction rs arbitrary: encs names)
    (auto simp: gallery_of_simps split: db_value.splits)

lemma gallery_of_not_null:
  "gallery_of (filter (\<lambda>r. embedding r \<noteq> Null) rs) = gallery_of rs"
  by (induction rs) (auto simp: gallery_of_simps split: db_value.splits)

lemma load_known_faces_from_db_eq:
  "load_known_faces_from_db d =
     (if reachable d then (Inr (lists_of (table d)), after_call SelectAll d)
      else (Inl OperationalError, after_call SelectAll d))"
  by (simp add: load_known_faces_from_db_def get_db_connection_eq reachable_def after_call_def
      append_rows_eq gallery_of_not_null lists_of_def)

lemma in_gallery_of:
  "(n, v) \<in> set (gallery_of rs) \<longleftrightarrow> (\<exists>r \<in> set rs. nombre r = n \<and> embedding r = ListVal v)"
  by (induction rs) (auto simp: gallery_of_simps split: db_value.splits)





section \<open>Enrollment\<close>

text \<open>
  Claim C2 at a failing input: the gallery holds \<open>alice\<close> with the embedding \<open>[0]\<close>
  and \<open>carol\<close> is enrolled with the same embedding.  The duplicate guard
  \<open>is_face_duplicate\<close> reports the duplicate, with the name \<open>alice\<close> and the
  distance 0.  The enrollment endpoint \<open>register_face\<close>, which is to call the guard,
  does not compile: the request meets a \<open>SyntaxError\<close> and not a rejection that carries
  the name and the distance.
\<close>

theorem duplicate_enrollment_not_rejected:
  "is_face_duplicate [0] [[0]] [''alice''] FACE_RECOGNITION_TOLERANCE =
     Inr (True, Some ''alice'', Some 0)
   \<and> register_face ''carol'' (Face [0])
       \<lparr>known_face_encodings = [[0]], known_face_names = [''alice'']\<rparr>
       \<lparr>table = [\<lparr>row_id = 2, nombre = ''alice'', embedding = ListVal [0]\<rparr>], next_id = 3,
        conn_up = [], calls = []\<rparr> =
     (Inl SyntaxError,
      \<lparr>known_face_encodings = [[0]], known_face_names = [''alice'']\<rparr>,
      \<lparr>table = [\<lparr>row_id = 2, nombre = ''alice'', embedding = ListVal [0]\<rparr>], next_id = 3,
       conn_up = [], calls = []\<rparr>)"
  by (simp add: is_face_duplicate_def face_distance_def euclid_single getitem_def
      FACE_RECOGNITION_TOLERANCE_def Let_def register_face_def)

section \<open>Deletion\<close>

lemma reachable_calls [simp]: "reachable (d\<lparr>calls := cs\<rparr>) = reachable d"
  by (simp add: reachable_def)

lemma delete_face_from_db_eq:
  "delete_face_from_db person_id d =
     (if reachable d
      then (Inr (list_ex (\<lambda>r. row_id r = person_id) (table d)),
            (after_call (Delete person_id) d)
              \<lparr>table := filter (\<lambda>r. row_id r \<noteq> person_id) (table d)\<rparr>)
      else (Inl OperationalError, after_call (Delete person_id) d))"
  by (simp add: delete_face_from_db_def get_db_connection_eq after_call_def)


lemma find_nombre_Some:
  "find (\<lambda>r. nombre r = n) rs = Some x \<Longrightarrow> x \<in> set rs \<and> nombre x = n"
  by (auto simp: find_Some_iff)


lemma delete_face_by_name_eq:
  "delete_face_by_name n a d =
     (let d1 = after_call (SelectId n) d
      in if \<not> reachable d
         then (Inl (HTTPException 500 ''Error interno al eliminar: {e}'' [Exc OperationalError]),
               a, d1)
         else case find (\<lambda>r. nombre r = n) (table d) of
           None \<Rightarrow>
             (Inl (HTTPException 404 ''Persona con nombre {nombre} no encontrada.'' [Str n]),
              a, d1)
         | Some r \<Rightarrow>
             if \<not> reachable d1
             then (Inl (HTTPException 500 ''Error interno al eliminar: {e}''
                          [Exc OperationalError]), a, after_call (Delete (row_id r)) d1)
             else let d2 = (after_call (Delete (row_id r)) d1)
                             \<lparr>table := filter (\<lambda>x. row_id x \<noteq> row_id r) (table d)\<rparr>
                  in if reachable d2
                     then (Inr (Deleted n), publish (lists_of (table d2)),
                           after_call SelectAll d2)
                     else (Inr (Deleted n), a, after_call SelectAll d2))"
proof -
  have d1: "get_db_connection (d\<lparr>calls := calls d @ [SelectId n]\<rparr>) =
      (reachable d, after_call (SelectId n) d)"
    by (simp add: get_db_connection_eq after_call_def)
  have t1: "table (after_call (SelectId n) d) = table d" by (simp add: after_call_def)
  show ?thesis
  proof (cases "find (\<lambda>r. nombre r = n) (table d)")
    case None
    then show ?thesis by (simp add: delete_face_by_name_def d1 t1 Let_def)
  next
    case (Some r)
    then have "r \<in> set (table d)" using find_nombre_Some by blast
    then have ex: "list_ex (\<lambda>x. row_id x = row_id r) (table d)" by (auto simp: list_ex_iff)
    show ?thesis
      using Some ex
      by (simp add: delete_face_by_name_def d1 t1 Let_def delete_face_from_db_eq
          load_known_faces_from_db_eq)
  qed
qed


lemma table_after_call [simp]: "table (after_call c d) = table d"
  by (simp add: after_call_def)




section \<open>Refresh\<close>

lemma refresh_db_faces_endpoint_eq:
  "refresh_db_faces_endpoint a d =
     (if reachable d
      then (Inr (Reloaded (length (gallery_of (table d)))), publish (lists_of (table d)),
            after_call SelectAll d)
      else (Inl (HTTPException 500 ''Error interno al recargar rostros: {e}''
                   [Exc OperationalError]), a, after_call SelectAll d))"
  by (simp add: refresh_db_faces_endpoint_def load_known_faces_from_db_eq lists_of_def)

lemma names_publish [simp]:
  "known_face_names (publish (lists_of rs)) = map fst (gallery_of rs)"
  by (simp add: publish_def lists_of_def)

lemma encodings_publish [simp]:
  "known_face_encodings (publish (lists_of rs)) = map snd (gallery_of rs)"
  by (simp add: publish_def lists_of_def)




section \<open>Automatic registration at startup\<close>

text \<open>
  Claim C9 at a failing input: the gallery holds \<open>alice\<close> and the reference folder
  holds one image without a face and one image of a new face.  The startup handler that
  is to skip the first, register the second, report its counts and reload the gallery
  does not compile: startup meets a \<open>SyntaxError\<close>, no counts are reported, and the
  store sees no operation, so no gallery load is performed.
\<close>

theorem startup_batch_not_run:
  "startup_event
     [\<lparr>stem = ''nobody'', image_suffix = True, content = NoFace\<rparr>,
      \<lparr>stem = ''dave'', image_suffix = True, content = Face [5]\<rparr>]
     \<lparr>known_face_encodings = [[0]], known_face_names = [''alice'']\<rparr>
     \<lparr>table = [\<lparr>row_id = 2, nombre = ''alice'', embedding = ListVal [0]\<rparr>], next_id = 3,
      conn_up = [], calls = []\<rparr> =
   (Inl SyntaxError,
    \<lparr>known_face_encodings = [[0]], known_face_names = [''alice'']\<rparr>,
    \<lparr>table = [\<lparr>row_id = 2, nombre = ''alice'', embedding = ListVal [0]\<rparr>], next_id = 3,
     conn_up = [], calls = []\<rparr>)
   \<and> reloads [] = 0"
  by (simp add: startup_event_def reloads_def)

section \<open>The cache invariant\<close>

lemma admitted_publish: "admitted rs (publish (lists_of rs))"
proof -
  have "\<exists>r \<in> set rs. nombre r = map fst (gallery_of rs) ! i
          \<and> embedding r = ListVal (map snd (gallery_of rs) ! i)"
    if "i < length (gallery_of rs)" for i
  proof -
    from that have "gallery_of rs ! i \<in> set (gallery_of rs)" by simp
    then have "(fst (gallery_of rs ! i), snd (gallery_of rs ! i)) \<in> set (gallery_of rs)"
      by simp
    then have "\<exists>r \<in> set rs. nombre r = fst (gallery_of rs ! i)
        \<and> embedding r = ListVal (snd (gallery_of rs ! i))"
      by (simp only: in_gallery_of)
    then show ?thesis using that by simp
  qed
  then show ?thesis by (simp add: admitted_def paired_def)
qed

lemma register_face_cache:
  "register_face n file a d = (res, a', d') \<Longrightarrow> a' = a \<or> a' = publish (lists_of (table d'))"
  by (simp add: register_face_def)

lemma delete_face_by_name_cache:
  "delete_face_by_name n a d = (res, a', d') \<Longrightarrow> a' = a \<or> a' = publish (lists_of (table d'))"
  by (auto simp: delete_face_by_name_eq Let_def split: option.splits if_splits)

lemma refresh_cache:
  "refresh_db_faces_endpoint a d = (res, a', d') \<Longrightarrow>
   a' = a \<or> a' = publish (lists_of (table d'))"
  by (auto simp: refresh_db_faces_endpoint_eq split: if_splits)

lemma startup_event_cache:
  assumes "startup_event photos a d = (res, a', d')"
  shows "a' = a \<or> a' = publish (lists_of (table d)) \<or> a' = publish (lists_of (table d'))"
  using assms by (simp add: startup_event_def)

text \<open>
  Claim C10.  The two cached lists of app/main.py are empty, hence of equal length, when
  the module is loaded.  Whatever \<open>load_known_faces_from_db\<close> returns is admitted by
  the table it read.  Startup, registration, deletion and refresh each leave the cache as
  it was or replace it by a cache admitted by the table at the time of the load (for
  startup: the table at its first load or the table after the batch).  An admitted cache
  has lists of equal length, and its entry at each index is the name and the embedding of
  one row whose embedding is a list, neither null nor of another kind.
\<close>

theorem cache_invariant:
  "paired \<lparr>known_face_encodings = [], known_face_names = []\<rparr>
   \<and> (load_known_faces_from_db d = (Inr c, d1) \<longrightarrow> admitted (table d) (publish c))
   \<and> (startup_event photos a d = (r1, a1, e1) \<longrightarrow>
        a1 = a \<or> admitted (table d) a1 \<or> admitted (table e1) a1)
   \<and> (register_face n file a d = (r2, a2, e2) \<longrightarrow> a2 = a \<or> admitted (table e2) a2)
   \<and> (delete_face_by_name n a d = (r3, a3, e3) \<longrightarrow> a3 = a \<or> admitted (table e3) a3)
   \<and> (refresh_db_faces_endpoint a d = (r4, a4, e4) \<longrightarrow> a4 = a \<or> admitted (table e4) a4)
   \<and> (admitted rs b \<longrightarrow>
        length (known_face_encodings b) = length (known_face_names b)
        \<and> (\<forall>i < length (known_face_names b).
              \<exists>r \<in> set rs. nombre r = known_face_names b ! i
                \<and> embedding r = ListVal (known_face_encodings b ! i)
                \<and> embedding r \<noteq> Null \<and> embedding r \<noteq> NonList))"
proof -
  have p0: "paired \<lparr>known_face_encodings = [], known_face_names = []\<rparr>"
    by (simp add: paired_def)
  have p1: "admitted (table d) (publish c)" if "load_known_faces_from_db d = (Inr c, d1)"
    using that admitted_publish [of "table d"]
    by (auto simp: load_known_faces_from_db_eq split: if_splits)
  have p2: "a1 = a \<or> admitted (table d) a1 \<or> admitted (table e1) a1"
    if "startup_event photos a d = (r1, a1, e1)"
    using startup_event_cache [OF that] admitted_publish by auto
  have p3: "a2 = a \<or> admitted (table e2) a2" if "register_face n file a d = (r2, a2, e2)"
    using register_face_cache [OF that] admitted_publish by auto
  have p4: "a3 = a \<or> admitted (table e3) a3" if "delete_face_by_name n a d = (r3, a3, e3)"
    using delete_face_by_name_cache [OF that] admitted_publish by auto
  have p5: "a4 = a \<or> admitted (table e4) a4" if "refresh_db_faces_endpoint a d = (r4, a4, e4)"
    using refresh_cache [OF that] admitted_publish by auto
  have p6: "length (known_face_encodings b) = length (known_face_names b)
        \<and> (\<forall>i < length (known_face_names b).
              \<exists>r \<in> set rs. nombre r = known_face_names b ! i
                \<and> embedding r = ListVal (known_face_encodings b ! i)
                \<and> embedding r \<noteq> Null \<and> embedding r \<noteq> NonList)"
    if "admitted rs b"
    using that unfolding admitted_def paired_def by fastforce
  from p0 p1 p2 p3 p4 p5 p6 show ?thesis by blast
qed

theorem cache_invariant_witness:
  "refresh_db_faces_endpoint \<lparr>known_face_encodings = [], known_face_names = []\<rparr>
     \<lparr>table = [\<lparr>row_id = 2, nombre = ''alice'', embedding = ListVal [0]\<rparr>,
               \<lparr>row_id = 3, nombre = ''bob'', embedding = Null\<rparr>,
               \<lparr>row_id = 4, nombre = ''eve'', embedding = NonList\<rparr>],
      next_id = 5, conn_up = [], calls = []\<rparr> =
   (Inr (Reloaded 1), \<lparr>known_face_encodings = [[0]], known_face_names = [''alice'']\<rparr>,
    \<lparr>table = [\<lparr>row_id = 2, nombre = ''alice'', embedding = ListVal [0]\<rparr>,
               \<lparr>row_id = 3, nombre = ''bob'', embedding = Null\<rparr>,
               \<lparr>row_id = 4, nombre = ''eve'', embedding = NonList\<rparr>],
      next_id = 5, conn_up = [], calls = [SelectAll]\<rparr>)
   \<and> admitted [\<lparr>row_id = 2, nombre = ''alice'', embedding = ListVal [0]\<rparr>,
               \<lparr>row_id = 3, nombre = ''bob'', embedding = Null\<rparr>,
               \<lparr>row_id = 4, nombre = ''eve'', embedding = NonList\<rparr>]
        \<lparr>known_face_encodings = [[0]], known_face_names = [''alice'']\<rparr>
   \<and> admitted [\<lparr>row_id = 2, nombre = ''alice'', embedding = ListVal [0]\<rparr>,
               \<lparr>row_id = 4, nombre = ''eve'', embedding = NonList\<rparr>]
        \<lparr>known_face_encodings = [[0]], known_face_names = [''alice'']\<rparr>"
proof -
  let ?t = "[\<lparr>row_id = 2, nombre = ''alice'', embedding = ListVal [0]\<rparr>,
               \<lparr>row_id = 3, nombre = ''bob'', embedding = Null\<rparr>,
               \<lparr>row_id = 4, nombre = ''eve'', embedding = NonList\<rparr>]"
  let ?t3 = "[\<lparr>row_id = 2, nombre = ''alice'', embedding = ListVal [0]\<rparr>,
               \<lparr>row_id = 4, nombre = ''eve'', embedding = NonList\<rparr>]"
  let ?a = "\<lparr>known_face_encodings = [], known_face_names = []\<rparr>"
  let ?b = "\<lparr>known_face_encodings = [[0::real]], known_face_names = [''alice'']\<rparr>"
  let ?d = "\<lparr>table = ?t, next_id = 5, conn_up = [], calls = []\<rparr>"
  let ?e = "\<lparr>table = ?t, next_id = 5, conn_up = [], calls = [SelectAll]\<rparr>"
  let ?e3 = "\<lparr>table = ?t3, next_id = 5, conn_up = [],
      calls = [SelectId ''bob'', Delete 3, SelectAll]\<rparr>"
  have h1: "load_known_faces_from_db ?d = (Inr ([[0]], [''alice'']), ?e)"
    by (simp add: load_known_faces_from_db_def get_db_connection_def)
  have h2: "startup_event [] ?a ?d = (Inl SyntaxError, ?a, ?d)"
    by (simp add: startup_event_def)
  have h3: "register_face ''bob'' (Face [5]) ?a ?d = (Inl SyntaxError, ?a, ?d)"
    by (simp add: register_face_def)
  have h4: "delete_face_by_name ''bob'' ?a ?d = (Inr (Deleted ''bob''), ?b, ?e3)"
    by (simp add: delete_face_by_name_def get_db_connection_def delete_face_from_db_def
        load_known_faces_from_db_def publish_def)
  have h5: "refresh_db_faces_endpoint ?a ?d = (Inr (Reloaded 1), ?b, ?e)"
    by (simp add: refresh_db_faces_endpoint_def h1 publish_def)
  have h6: "admitted ?t ?b" by (simp add: admitted_def paired_def)
  have ne: "?b \<noteq> ?a" by simp
  from cache_invariant [of ?d "([[0]], [''alice''])" ?e "[]" ?a "Inl SyntaxError" ?a ?d
      "''bob''" "Face [5]" "Inl SyntaxError" ?a ?d
      "Inr (Deleted ''bob'')" ?b ?e3 "Inr (Reloaded 1)" ?b ?e ?t ?b] h1 h2 h3 h4 h5 h6 ne
  have "admitted (table ?d) (publish ([[0]], [''alice'']))
      \<and> admitted (table ?e3) ?b
      \<and> admitted (table ?e) ?b
      \<and> length (known_face_encodings ?b) = length (known_face_names ?b)"
    by blast
  with h5 show ?thesis by (simp add: publish_def)
qed

end
